theory Spec2Isabelle
  imports Complex_Main
begin

section \<open>Constant-product pool, market environment and tabular Q-policy\<close>

text \<open>
  A shallow embedding of \<^verbatim>\<open>amms.py\<close>, \<^verbatim>\<open>environment.py\<close> and
  \<^verbatim>\<open>rl_utils.py\<close>.

  Numbers: a Python \<^verbatim>\<open>float\<close> is a \<^typ>\<open>real\<close>. The methods of the pool and of the
  environment are written over exact arithmetic: their statements give each result by the
  formula the code evaluates. Where the rounding of IEEE doubles decides what a statement
  says (an exact equality or a bound without slack between results of different
  computations, or the index a floor picks), the arithmetic is written with the rounding
  of every operation made explicit, by \<open>round_double\<close> below. Overflow to infinity, NaN
  and subnormal numbers are outside the model. Step counters and table indices are
  \<^typ>\<open>nat\<close>.

  Objects: a class is a record of its fields, a method takes the record and returns its
  result together with the updated record.
\<close>

subsection \<open>Double precision\<close>

text \<open>
  Rounding to the nearest integer, a tie going to the even one, and rounding of a real
  to the nearest number with a 53-bit significand (the exponent is not bounded): what
  each arithmetic operation on doubles does to its exact result.
\<close>

definition round_half_even :: "real \<Rightarrow> int" where
  "round_half_even m =
     (let n = \<lfloor>m\<rfloor>; r = m - of_int n
      in if r < 1 / 2 then n else if 1 / 2 < r then n + 1 else if even n then n else n + 1)"

definition round_double :: "real \<Rightarrow> real" where
  "round_double x =
     (if x = 0 then 0
      else (let e = \<lfloor>log 2 \<bar>x\<bar>\<rfloor>; ulp = 2 powr of_int (e - 52)
            in sgn x * of_int (round_half_even (\<bar>x\<bar> / ulp)) * ulp))"

subsection \<open>amms.py: ConstantProductAMM\<close>

record ConstantProductAMM =
  fee_rate :: real
  reserveA :: real
  reserveB :: real
  K :: real
  liquidity_shares :: real

text \<open>The literal \<^verbatim>\<open>1e-12\<close> of the source.\<close>

definition tiny :: real where
  "tiny = 1 / 10 ^ 12"

text \<open>\<^verbatim>\<open>ConstantProductAMM.__init__(fee_rate)\<close>\<close>

definition new_amm :: "real \<Rightarrow> ConstantProductAMM" where
  "new_amm fee =
     \<lparr>fee_rate = fee, reserveA = 0, reserveB = 0, K = 0, liquidity_shares = 0\<rparr>"

text \<open>
  \<^verbatim>\<open>add_liquidity\<close>. The locals \<^verbatim>\<open>ratioA\<close> and \<^verbatim>\<open>ratioB\<close> of the source are computed
  and never read, so they are left out. The method always returns \<^verbatim>\<open>True\<close>.
\<close>

definition add_liquidity ::
  "ConstantProductAMM \<Rightarrow> real \<Rightarrow> real \<Rightarrow> bool \<times> ConstantProductAMM" where
  "add_liquidity p amount_tokenA amount_tokenB =
     (if reserveA p < tiny \<or> reserveB p < tiny then
        (True, p\<lparr>reserveA := amount_tokenA,
                 reserveB := amount_tokenB,
                 K := amount_tokenA * amount_tokenB,
                 liquidity_shares := liquidity_shares p + (amount_tokenA + amount_tokenB)\<rparr>)
      else
        (let new_reserveA = reserveA p + amount_tokenA;
             new_reserveB = reserveB p + amount_tokenB;
             denominator = new_reserveA - amount_tokenA;
             shares_minted =
               (if \<bar>denominator\<bar> < tiny then amount_tokenA + amount_tokenB
                else (liquidity_shares p * amount_tokenA) / denominator)
         in (True, p\<lparr>reserveA := new_reserveA,
                      reserveB := new_reserveB,
                      K := new_reserveA * new_reserveB,
                      liquidity_shares := liquidity_shares p + shares_minted\<rparr>)))"

text \<open>
  \<^verbatim>\<open>remove_liquidity\<close>: \<open>None\<close> is Python's \<^verbatim>\<open>None\<close>, \<open>Some (a, b)\<close> the returned
  pair.
\<close>

definition remove_liquidity ::
  "ConstantProductAMM \<Rightarrow> real \<Rightarrow> (real \<times> real) option \<times> ConstantProductAMM" where
  "remove_liquidity p fraction0 =
     (let fraction = min fraction0 0.999 in
      if fraction < 0 then (None, p)
      else
        (let amountA_out = reserveA p * fraction;
             amountB_out = reserveB p * fraction;
             new_reserveA = reserveA p - amountA_out;
             new_reserveB = reserveB p - amountB_out;
             shares_to_burn = liquidity_shares p * fraction
         in (Some (amountA_out, amountB_out),
             p\<lparr>reserveA := new_reserveA,
               reserveB := new_reserveB,
               liquidity_shares := liquidity_shares p - shares_to_burn,
               K := new_reserveA * new_reserveB\<rparr>)))"

text \<open>
  \<^verbatim>\<open>swap\<close>: the direction is the string the caller passes; everything but
  \<^verbatim>\<open>"buy"\<close> takes the \<^verbatim>\<open>else\<close> branch. Both divisions are guarded in the source.
\<close>

definition swap ::
  "ConstantProductAMM \<Rightarrow> real \<Rightarrow> string \<Rightarrow> real \<times> ConstantProductAMM" where
  "swap p amount_in direction =
     (if amount_in \<le> 0 then (0, p)
      else if reserveA p < tiny \<or> reserveB p < tiny then (0, p)
      else if direction = ''buy'' then
        (let amount_in_after_fee = amount_in * (1 - fee_rate p);
             new_reserveB = reserveB p + amount_in_after_fee;
             new_reserveA = (if new_reserveB \<noteq> 0 then K p / new_reserveB else 0);
             amount_out = reserveA p - new_reserveA;
             amount_out = (if amount_out < 0 then 0 else amount_out)
         in (amount_out,
             p\<lparr>reserveB := new_reserveB,
               reserveA := new_reserveA,
               K := new_reserveA * new_reserveB\<rparr>))
      else
        (let amount_in_after_fee = amount_in * (1 - fee_rate p);
             new_reserveA = reserveA p + amount_in_after_fee;
             new_reserveB = (if new_reserveA \<noteq> 0 then K p / new_reserveA else 0);
             amount_out = reserveB p - new_reserveB;
             amount_out = (if amount_out < 0 then 0 else amount_out)
         in (amount_out,
             p\<lparr>reserveA := new_reserveA,
               reserveB := new_reserveB,
               K := new_reserveA * new_reserveB\<rparr>)))"

definition get_price :: "ConstantProductAMM \<Rightarrow> real" where
  "get_price p = (if reserveA p < tiny then 0 else reserveB p / reserveA p)"

definition total_liquidity_shares :: "ConstantProductAMM \<Rightarrow> real" where
  "total_liquidity_shares p = liquidity_shares p"


definition remove_liquidity_rounded ::
  "(real \<Rightarrow> real) \<Rightarrow> ConstantProductAMM \<Rightarrow> real
     \<Rightarrow> (real \<times> real) option \<times> ConstantProductAMM" where
  "remove_liquidity_rounded R p fraction0 =
     (let fraction = min fraction0 (R 0.999) in
      if fraction < 0 then (None, p)
      else
        (let amountA_out = R (reserveA p * fraction);
             amountB_out = R (reserveB p * fraction);
             new_reserveA = R (reserveA p - amountA_out);
             new_reserveB = R (reserveB p - amountB_out);
             shares_to_burn = R (liquidity_shares p * fraction)
         in (Some (amountA_out, amountB_out),
             p\<lparr>reserveA := new_reserveA,
               reserveB := new_reserveB,
               liquidity_shares := R (liquidity_shares p - shares_to_burn),
               K := R (new_reserveA * new_reserveB)\<rparr>)))"

text \<open>
  A call of one of the five public methods with its arguments, and a run of a list of
  calls on a pool, each call on the state the previous one left.
\<close>

datatype amm_call =
    Call_add_liquidity real real
  | Call_remove_liquidity real
  | Call_swap real string
  | Call_get_price
  | Call_total_liquidity_shares

fun call :: "ConstantProductAMM \<Rightarrow> amm_call \<Rightarrow> ConstantProductAMM" where
  "call p (Call_add_liquidity a b) = snd (add_liquidity p a b)"
| "call p (Call_remove_liquidity f) = snd (remove_liquidity p f)"
| "call p (Call_swap x d) = snd (swap p x d)"
| "call p Call_get_price = p"
| "call p Call_total_liquidity_shares = p"

fun calls :: "ConstantProductAMM \<Rightarrow> amm_call list \<Rightarrow> ConstantProductAMM" where
  "calls p [] = p"
| "calls p (c # cs) = calls (call p c) cs"

subsection \<open>environment.py: MarketEnvironment\<close>

text \<open>
  The observation dictionary \<^verbatim>\<open>env_state\<close> handed to every agent; \<open>step_key\<close> is its
  key \<^verbatim>\<open>"step"\<close>.
\<close>

record env_state =
  amm_price :: real
  reference_price :: real
  step_key :: nat

text \<open>
  An action dictionary. Each field is one key of the dictionary, \<open>None\<close> when the key is
  absent: \<^verbatim>\<open>"type"\<close>, \<^verbatim>\<open>"direction"\<close>, \<^verbatim>\<open>"amount"\<close>, \<^verbatim>\<open>"amount_tokenA"\<close>,
  \<^verbatim>\<open>"amount_tokenB"\<close>.
\<close>

record action =
  act_type :: "string option"
  act_direction :: "string option"
  act_amount :: "real option"
  act_amount_tokenA :: "real option"
  act_amount_tokenB :: "real option"

text \<open>
  An agent object: its name, its own mutable fields (\<open>memory\<close>) and its method
  \<^verbatim>\<open>act\<close>, which reads the observation and may change those fields.
\<close>

record 's agent =
  name :: string
  memory :: 's
  act :: "'s \<Rightarrow> env_state \<Rightarrow> action \<times> 's"

datatype error = KeyError string | IndexError | ZeroDivisionError

record 's MarketEnvironment =
  amm :: ConstantProductAMM
  agents :: "'s agent list"
  reference_prices :: "real list"
  num_steps :: nat
  current_step :: nat
  rewards :: "string \<rightharpoonup> real"
  total_volume_tokenA :: real
  total_volume_tokenB :: real

text \<open>The loop \<^verbatim>\<open>for agent in agents: self.rewards[agent.name] = 0.0\<close>.\<close>

fun zero_rewards :: "'s agent list \<Rightarrow> (string \<rightharpoonup> real) \<Rightarrow> (string \<rightharpoonup> real)" where
  "zero_rewards [] r = r"
| "zero_rewards (ag # ags) r = zero_rewards ags (r(name ag \<mapsto> 0))"

text \<open>\<^verbatim>\<open>MarketEnvironment.__init__(amm, agents, reference_prices)\<close>\<close>

definition new_env ::
  "ConstantProductAMM \<Rightarrow> 's agent list \<Rightarrow> real list \<Rightarrow> 's MarketEnvironment" where
  "new_env a ags prices =
     \<lparr>amm = a, agents = ags, reference_prices = prices, num_steps = length prices,
      current_step = 0, rewards = zero_rewards ags Map.empty,
      total_volume_tokenA = 0, total_volume_tokenB = 0\<rparr>"

definition reset :: "'s MarketEnvironment \<Rightarrow> 's MarketEnvironment" where
  "reset e =
     e\<lparr>current_step := 0,
       rewards := zero_rewards (agents e) (rewards e),
       total_volume_tokenA := 0,
       total_volume_tokenB := 0\<rparr>"

text \<open>
  \<^verbatim>\<open>self.rewards[nm] += delta\<close>: reading an absent key raises \<^verbatim>\<open>KeyError\<close>.
\<close>

definition add_reward ::
  "'s MarketEnvironment \<Rightarrow> string \<Rightarrow> real \<Rightarrow> error + 's MarketEnvironment" where
  "add_reward e nm delta =
     (case rewards e nm of
        None \<Rightarrow> Inl (KeyError nm)
      | Some r \<Rightarrow> Inr (e\<lparr>rewards := (rewards e)(nm \<mapsto> r + delta)\<rparr>))"

text \<open>
  The body of the loop ``Execute actions'' of \<^verbatim>\<open>step\<close> for one agent: \<open>nm\<close> is
  \<^verbatim>\<open>agent.name\<close>, \<open>a\<close> is \<^verbatim>\<open>actions[agent.name]\<close>.
\<close>

definition execute_action ::
  "'s MarketEnvironment \<Rightarrow> real \<Rightarrow> string \<Rightarrow> action \<Rightarrow> error + 's MarketEnvironment" where
  "execute_action e current_price nm a =
     (case act_type a of
        None \<Rightarrow> Inl (KeyError ''type'')
      | Some t \<Rightarrow>
          if t = ''trade'' then
            (let direction = (case act_direction a of None \<Rightarrow> ''buy'' | Some d \<Rightarrow> d);
                 amount_in = (case act_amount a of None \<Rightarrow> 0 | Some x \<Rightarrow> x)
             in if amount_in > 0 then
                  (let (tokens_received, amm') = swap (amm e) amount_in direction;
                       e1 = e\<lparr>amm := amm'\<rparr>
                   in if direction = ''buy'' then
                        (let cost_ref = amount_in;
                             value_ref = tokens_received * current_price
                         in case add_reward e1 nm (value_ref - cost_ref) of
                              Inl err \<Rightarrow> Inl err
                            | Inr e2 \<Rightarrow>
                                Inr (e2\<lparr>total_volume_tokenB :=
                                          total_volume_tokenB e2 + amount_in\<rparr>))
                      else
                        (let cost_ref = amount_in * current_price;
                             value_ref = tokens_received
                         in case add_reward e1 nm (value_ref - cost_ref) of
                              Inl err \<Rightarrow> Inl err
                            | Inr e2 \<Rightarrow>
                                Inr (e2\<lparr>total_volume_tokenA :=
                                          total_volume_tokenA e2 + amount_in\<rparr>)))
                else Inr e)
          else if t = ''add_liquidity'' then
            (case act_amount_tokenA a of
               None \<Rightarrow> Inl (KeyError ''amount_tokenA'')
             | Some amountA \<Rightarrow>
                 (case act_amount_tokenB a of
                    None \<Rightarrow> Inl (KeyError ''amount_tokenB'')
                  | Some amountB \<Rightarrow>
                      if amountA > 0 \<and> amountB > 0
                      then Inr (e\<lparr>amm := snd (add_liquidity (amm e) amountA amountB)\<rparr>)
                      else Inr e))
          else if t = ''remove_liquidity'' then
            (case act_amount_tokenA a of
               None \<Rightarrow> Inl (KeyError ''amount_tokenA'')
             | Some fractionA \<Rightarrow>
                 (case act_amount_tokenB a of
                    None \<Rightarrow> Inl (KeyError ''amount_tokenB'')
                  | Some fractionB \<Rightarrow>
                      (let fraction = min fractionA fractionB;
                           (result, amm') = remove_liquidity (amm e) fraction;
                           e1 = e\<lparr>amm := amm'\<rparr>
                       in case result of
                            None \<Rightarrow> Inr e1
                          | Some (outA, outB) \<Rightarrow>
                              add_reward e1 nm (outA * current_price + outB))))
          else Inr e)"

text \<open>
  The loop ``Collect agent actions'': every agent sees the same observation; its action
  is stored under its name (a later agent of the same name overwrites it), and its own
  fields are what \<^verbatim>\<open>act\<close> left.
\<close>

fun collect_actions ::
  "'s agent list \<Rightarrow> env_state \<Rightarrow> (string \<rightharpoonup> action)
     \<Rightarrow> 's agent list \<times> (string \<rightharpoonup> action)" where
  "collect_actions [] obs actions = ([], actions)"
| "collect_actions (ag # ags) obs actions =
     (let (a, m) = act ag (memory ag) obs;
          (ags', actions') = collect_actions ags obs (actions(name ag \<mapsto> a))
      in (ag\<lparr>memory := m\<rparr> # ags', actions'))"

text \<open>The loop ``Execute actions'', in the order of the agent list.\<close>

fun execute_actions ::
  "'s agent list \<Rightarrow> (string \<rightharpoonup> action) \<Rightarrow> real \<Rightarrow> 's MarketEnvironment
     \<Rightarrow> error + 's MarketEnvironment" where
  "execute_actions [] actions current_price e = Inr e"
| "execute_actions (ag # ags) actions current_price e =
     (case actions (name ag) of
        None \<Rightarrow> Inl (KeyError (name ag))
      | Some a \<Rightarrow>
          (case execute_action e current_price (name ag) a of
             Inl err \<Rightarrow> Inl err
           | Inr e' \<Rightarrow> execute_actions ags actions current_price e'))"

text \<open>
  \<^verbatim>\<open>step\<close>: the Boolean is the value returned. An exception of the source is \<open>Inl\<close>.
\<close>

definition step :: "'s MarketEnvironment \<Rightarrow> error + (bool \<times> 's MarketEnvironment)" where
  "step e =
     (if current_step e \<ge> num_steps e then Inr (False, e)
      else if current_step e \<ge> length (reference_prices e) then Inl IndexError
      else
        (let current_price = reference_prices e ! current_step e;
             env_state = \<lparr>amm_price = get_price (amm e),
                          reference_price = current_price,
                          step_key = current_step e\<rparr>;
             (ags, actions) = collect_actions (agents e) env_state Map.empty
         in case execute_actions ags actions current_price (e\<lparr>agents := ags\<rparr>) of
              Inl err \<Rightarrow> Inl err
            | Inr e' \<Rightarrow> Inr (True, e'\<lparr>current_step := current_step e' + 1\<rparr>)))"


text \<open>
  What one agent's turn and the whole tick leave alone: the step counter and the number
  of steps. This is what makes the loop of \<^verbatim>\<open>run_simulation\<close> terminate.
\<close>

lemma add_reward_counters:
  "add_reward e nm delta = Inr e' \<Longrightarrow>
     num_steps e' = num_steps e \<and> current_step e' = current_step e"
  by (auto simp: add_reward_def split: option.splits)

lemma execute_action_counters:
  "execute_action e price nm a = Inr e' \<Longrightarrow>
     num_steps e' = num_steps e \<and> current_step e' = current_step e"
  by (auto simp: execute_action_def Let_def
      split: option.splits if_splits prod.splits sum.splits
      dest!: add_reward_counters)

lemma execute_actions_counters:
  "execute_actions ags actions price e = Inr e' \<Longrightarrow>
     num_steps e' = num_steps e \<and> current_step e' = current_step e"
proof (induction ags arbitrary: e)
  case Nil
  then show ?case by simp
next
  case (Cons ag ags)
  from Cons.prems obtain a e1 where
    a: "execute_action e price (name ag) a = Inr e1" and
    rest: "execute_actions ags actions price e1 = Inr e'"
    by (auto split: option.splits sum.splits)
  from Cons.IH [OF rest] execute_action_counters [OF a] show ?case by simp
qed

lemma step_advances:
  assumes "step e = Inr (True, e')"
  shows "num_steps e' = num_steps e \<and> current_step e' = Suc (current_step e)
       \<and> current_step e < num_steps e"
proof -
  from assms have lt: "current_step e < num_steps e"
    by (auto simp: step_def split: if_splits)
  from assms lt obtain ags actions e1 where
    ex: "execute_actions ags actions (reference_prices e ! current_step e) (e\<lparr>agents := ags\<rparr>) = Inr e1"
    and e': "e' = e1\<lparr>current_step := current_step e1 + 1\<rparr>"
    by (auto simp: step_def Let_def split: if_splits prod.splits sum.splits)
  from execute_actions_counters [OF ex] e' lt show ?thesis by simp
qed

text \<open>
  \<^verbatim>\<open>while self.step(): pass\<close>, and \<^verbatim>\<open>run_simulation\<close>, which resets first.
\<close>

function run_loop :: "'s MarketEnvironment \<Rightarrow> error + 's MarketEnvironment" where
  "run_loop e =
     (case step e of
        Inl err \<Rightarrow> Inl err
      | Inr (stepped, e') \<Rightarrow> if stepped then run_loop e' else Inr e')"
  by pat_completeness auto
termination
proof (relation "measure (\<lambda>e. num_steps e - current_step e)")
  show "wf (measure (\<lambda>e::'s MarketEnvironment. num_steps e - current_step e))"
    by simp
next
  fix e :: "'s MarketEnvironment" and r stepped e'
  assume "step e = Inr r" and "(stepped, e') = r" and stepped
  then have "step e = Inr (True, e')" by simp
  from step_advances [OF this]
  show "(e', e) \<in> measure (\<lambda>e. num_steps e - current_step e)" by auto
qed

definition run_simulation :: "'s MarketEnvironment \<Rightarrow> error + 's MarketEnvironment" where
  "run_simulation e = run_loop (reset e)"

subsection \<open>rl_utils.py: SimpleQPolicy\<close>

text \<open>
  The table \<^verbatim>\<open>q_table\<close> is a NumPy array of shape
  \<open>(num_price_buckets, num_time_buckets, 3)\<close>: a function of the three indices, read and
  written only inside the shape; an index outside it raises \<^verbatim>\<open>IndexError\<close>.
\<close>

record SimpleQPolicy =
  num_price_buckets :: nat
  num_time_buckets :: nat
  alpha :: real
  gamma :: real
  epsilon :: real
  q_table :: "nat \<Rightarrow> nat \<Rightarrow> nat \<Rightarrow> real"
  last_state :: "(nat \<times> nat) option"
  last_action :: "nat option"

text \<open>\<^verbatim>\<open>SimpleQPolicy.__init__\<close>; the seeding of the global generator is not modelled.\<close>

definition new_policy :: "nat \<Rightarrow> nat \<Rightarrow> real \<Rightarrow> real \<Rightarrow> real \<Rightarrow> SimpleQPolicy" where
  "new_policy npb ntb al ga ep =
     \<lparr>num_price_buckets = npb, num_time_buckets = ntb, alpha = al, gamma = ga,
      epsilon = ep, q_table = (\<lambda>i j k. 0), last_state = None, last_action = None\<rparr>"

text \<open>
  \<^verbatim>\<open>_discretize_state\<close>, on doubles: the difference, the product with the literal
  \<^verbatim>\<open>0.02\<close> and the sum are rounded; \<^verbatim>\<open>x // bucket_size\<close> is the floor of the exact
  quotient of the two doubles (Python computes it from the exact remainder), which
  \<^verbatim>\<open>int\<close> converts. The remainder by a zero \<open>num_time_buckets\<close> raises.
\<close>

definition discretize_state :: "SimpleQPolicy \<Rightarrow> env_state \<Rightarrow> error + (nat \<times> nat)" where
  "discretize_state pol env_state =
     (let price_diff = round_double (reference_price env_state - amm_price env_state);
          bucket_size = round_double 0.02;
          bucket = \<lfloor>round_double
                     (price_diff + round_double (real (num_price_buckets pol) * bucket_size))
                    / bucket_size\<rfloor>;
          bucket = max 0 (min (int (num_price_buckets pol) - 1) bucket)
      in if num_time_buckets pol = 0 then Inl ZeroDivisionError
         else Inr (nat bucket, step_key env_state mod num_time_buckets pol))"

text \<open>Whether \<open>[i, j, :]\<close> and \<open>[i, j, k]\<close> lie inside the table.\<close>

definition in_table :: "SimpleQPolicy \<Rightarrow> nat \<times> nat \<Rightarrow> bool" where
  "in_table pol s = (fst s < num_price_buckets pol \<and> snd s < num_time_buckets pol)"

text \<open>\<^verbatim>\<open>np.argmax\<close> of the three values: the first index of a maximum.\<close>

definition argmax3 :: "real \<Rightarrow> real \<Rightarrow> real \<Rightarrow> nat" where
  "argmax3 q0 q1 q2 = (if q1 \<le> q0 \<and> q2 \<le> q0 then 0 else if q2 \<le> q1 then 1 else 2)"

text \<open>
  \<^verbatim>\<open>select_action\<close>. The two draws from the global random generator are arguments:
  \<open>rand\<close> is the value of \<^verbatim>\<open>np.random.rand()\<close>, \<open>randint\<close> the value of
  \<^verbatim>\<open>np.random.randint(0, 3)\<close> (read only when exploring).
\<close>

definition select_action ::
  "SimpleQPolicy \<Rightarrow> env_state \<Rightarrow> real \<Rightarrow> nat \<Rightarrow> error + (action \<times> SimpleQPolicy)" where
  "select_action pol env_state rand randint =
     (case discretize_state pol env_state of
        Inl err \<Rightarrow> Inl err
      | Inr s \<Rightarrow>
          (case (if rand < epsilon pol then Inr randint
                 else if in_table pol s
                   then Inr (argmax3 (q_table pol (fst s) (snd s) 0)
                                     (q_table pol (fst s) (snd s) 1)
                                     (q_table pol (fst s) (snd s) 2))
                   else Inl IndexError) of
             Inl err \<Rightarrow> Inl err
           | Inr a \<Rightarrow>
               (let pol' = pol\<lparr>last_state := Some s, last_action := Some a\<rparr>
                in if a = 0 then
                     Inr (\<lparr>act_type = Some ''none'', act_direction = None, act_amount = None,
                           act_amount_tokenA = Some 0, act_amount_tokenB = Some 0\<rparr>, pol')
                   else if a = 1 then
                     Inr (\<lparr>act_type = Some ''add_liquidity'', act_direction = None,
                           act_amount = None,
                           act_amount_tokenA = Some 10, act_amount_tokenB = Some 10\<rparr>, pol')
                   else
                     Inr (\<lparr>act_type = Some ''remove_liquidity'', act_direction = None,
                           act_amount = None,
                           act_amount_tokenA = Some 0.3, act_amount_tokenB = Some 0.3\<rparr>, pol'))))"

text \<open>
  \<^verbatim>\<open>update_q\<close>; \<^verbatim>\<open>np.max\<close> of the three values of a row is \<open>max\<close> of the first
  and of \<open>max\<close> of the other two. With \<open>last_action = None\<close> while a state is pending (a state that
  \<^verbatim>\<open>select_action\<close> and \<^verbatim>\<open>update_q\<close> never produce, since they set and clear both fields
  together) NumPy reads the index \<^verbatim>\<open>None\<close> as a new axis and the assignment updates the
  three entries of the row.
\<close>

definition update_q :: "SimpleQPolicy \<Rightarrow> real \<Rightarrow> env_state \<Rightarrow> bool \<Rightarrow> error + SimpleQPolicy" where
  "update_q pol reward new_env_state done =
     (case last_state pol of
        None \<Rightarrow> Inr pol
      | Some s \<Rightarrow>
          (case (if done then Inr reward
                 else (case discretize_state pol new_env_state of
                         Inl err \<Rightarrow> Inl err
                       | Inr s_next \<Rightarrow>
                           if in_table pol s_next
                           then Inr (reward + gamma pol *
                                  max (q_table pol (fst s_next) (snd s_next) 0)
                                    (max (q_table pol (fst s_next) (snd s_next) 1)
                                         (q_table pol (fst s_next) (snd s_next) 2)))
                           else Inl IndexError)) of
             Inl err \<Rightarrow> Inl err
           | Inr target \<Rightarrow>
               if \<not> in_table pol s then Inl IndexError
               else
                 (case last_action pol of
                    None \<Rightarrow>
                      Inr (pol\<lparr>q_table := (\<lambda>i j k.
                                 if i = fst s \<and> j = snd s \<and> k < 3
                                 then q_table pol i j k + alpha pol * (target - q_table pol i j k)
                                 else q_table pol i j k),
                               last_state := None, last_action := None\<rparr>)
                  | Some a \<Rightarrow>
                      if \<not> a < 3 then Inl IndexError
                      else
                        Inr (pol\<lparr>q_table := (\<lambda>i j k.
                                   if i = fst s \<and> j = snd s \<and> k = a
                                   then q_table pol i j k + alpha pol * (target - q_table pol i j k)
                                   else q_table pol i j k),
                                 last_state := None, last_action := None\<rparr>))))"

subsection \<open>Concrete inputs\<close>

text \<open>Two pools: a fresh pool after one deposit.\<close>

definition pool_1000_1200 :: ConstantProductAMM where
  "pool_1000_1200 = snd (add_liquidity (new_amm 0.003) 1000 1200)"

definition pool_200_300 :: ConstantProductAMM where
  "pool_200_300 = snd (add_liquidity (new_amm 0.003) 200 300)"

text \<open>A scripted agent: it has no fields of its own and always proposes the same action.\<close>

definition scripted :: "string \<Rightarrow> action \<Rightarrow> unit agent" where
  "scripted nm a = \<lparr>name = nm, memory = (), act = (\<lambda>m obs. (a, m))\<rparr>"

definition remove_action :: "real \<Rightarrow> real \<Rightarrow> action" where
  "remove_action fA fB =
     \<lparr>act_type = Some ''remove_liquidity'', act_direction = None, act_amount = None,
      act_amount_tokenA = Some fA, act_amount_tokenB = Some fB\<rparr>"

definition trade_action :: "string \<Rightarrow> real \<Rightarrow> action" where
  "trade_action d x =
     \<lparr>act_type = Some ''trade'', act_direction = Some d, act_amount = Some x,
      act_amount_tokenA = None, act_amount_tokenB = None\<rparr>"

text \<open>
  One scripted agent proposing \<open>remove_liquidity(0.5, 0.5)\<close> on the pool holding
  (200, 300), with reference price 1.5 at step 0.
\<close>

definition env_200_300 :: "unit MarketEnvironment" where
  "env_200_300 = new_env pool_200_300 [scripted ''lp'' (remove_action 0.5 0.5)] [1.5]"

text \<open>What one run of that environment leaves.\<close>

definition env_after_run :: "unit MarketEnvironment" where
  "env_after_run =
     env_200_300\<lparr>amm := snd (remove_liquidity pool_200_300 0.5),
                  rewards := [''lp'' \<mapsto> 300],
                  current_step := 1\<rparr>"


text \<open>
  Two environments with two scripted agents each: two liquidity removers on the
  (200, 300) pool at reference price 2 (the pool's own price is 1.5), and a seller and a
  buyer on a pool that is still empty, at reference price 1.5.
\<close>

definition env_two_removers :: "unit MarketEnvironment" where
  "env_two_removers =
     new_env pool_200_300
       [scripted ''first'' (remove_action (1 / 2) (1 / 2)),
        scripted ''second'' (remove_action (1 / 2) 1)] [2]"

definition env_two_traders :: "unit MarketEnvironment" where
  "env_two_traders =
     new_env (new_amm 0.003)
       [scripted ''seller'' (trade_action ''sell'' 5),
        scripted ''buyer'' (trade_action ''buy'' 3)] [3 / 2]"

text \<open>
  A policy with learning rate and discount factor 1/2 whose table holds some values, an
  observation with equal prices, an observation with reference price 1.48 (as a double)
  against pool price 1.5, and the policy with the selection ((4, 2), 1) pending.
\<close>

definition sample_table :: "nat \<Rightarrow> nat \<Rightarrow> nat \<Rightarrow> real" where
  "sample_table i j k =
     (if i = 4 \<and> j = 2 then (if k = 1 then 1 else 0)
      else if i = 3 \<and> j = 3 then (if k = 0 then 1 else if k = 1 then 3 else 2)
      else if i = 4 \<and> j = 3 then 5
      else 0)"

definition sample_policy :: SimpleQPolicy where
  "sample_policy = (new_policy 5 10 (1 / 2) (1 / 2) (1 / 10))\<lparr>q_table := sample_table\<rparr>"

definition obs_equal :: env_state where
  "obs_equal = \<lparr>amm_price = 3 / 2, reference_price = 3 / 2, step_key = 2\<rparr>"

definition obs_below :: env_state where
  "obs_below = \<lparr>amm_price = 3 / 2, reference_price = round_double 1.48, step_key = 3\<rparr>"

definition pending_policy :: SimpleQPolicy where
  "pending_policy = sample_policy\<lparr>last_state := Some (4, 2), last_action := Some 1\<rparr>"

section \<open>Properties of rounding\<close>




text \<open>
  Evaluation: for a positive \<open>x\<close> scaled by \<open>2\<^sup>j\<close> into \<open>[2\<^sup>5\<^sup>2, 2\<^sup>5\<^sup>3)\<close> the double is the
  rounded scaled value over \<open>2\<^sup>j\<close>.
\<close>

lemma round_double_eval:
  assumes "0 < x" and "2 ^ 52 \<le> x * 2 ^ j" and "x * 2 ^ j < 2 ^ 53"
  shows "round_double x = of_int (round_half_even (x * 2 ^ j)) / 2 ^ j"
proof -
  have e: "\<lfloor>log 2 x\<rfloor> = 52 - int j"
  proof (rule floor_unique)
    have "2 powr (52 - real j) = 2 ^ 52 / 2 ^ j"
      by (simp add: powr_diff powr_realpow [symmetric])
    also have "\<dots> \<le> x" using assms(2) by (simp add: field_simps)
    finally have "52 - real j \<le> log 2 x" using assms(1) by (simp add: le_log_iff)
    then show "of_int (52 - int j) \<le> log 2 x" by simp
    have "x < 2 ^ 53 / 2 ^ j" using assms(3) by (simp add: field_simps)
    also have "\<dots> = 2 powr (53 - real j)"
      by (simp add: powr_diff powr_realpow [symmetric])
    finally have "log 2 x < 53 - real j" using assms(1) by (simp add: log_less_iff)
    then show "log 2 x < of_int (52 - int j) + 1" by simp
  qed
  have ulp: "(2::real) powr - real j = 1 / 2 ^ j"
    by (simp add: powr_minus powr_realpow [symmetric] field_simps)
  from assms(1) show ?thesis
    by (simp add: round_double_def Let_def e ulp)
qed

lemma round_double_minus: "round_double (- x) = - round_double x"
  by (simp add: round_double_def Let_def)



section \<open>Properties of the pool\<close>

lemma tiny_pos: "0 < tiny"
  by (simp add: tiny_def)

text \<open>
  C5: whenever \<open>amount_in \<le> 0\<close>, or \<open>reserveA\<close> is below \<^verbatim>\<open>1e-12\<close>, or \<open>reserveB\<close> is,
  \<open>swap\<close> returns 0 and the pool it leaves is the pool it was given: \<open>reserveA\<close>,
  \<open>reserveB\<close>, \<open>K\<close> and \<open>liquidity_shares\<close> are unchanged, whatever the direction.
\<close>

theorem swap_degenerate_noop:
  assumes "amount_in \<le> 0 \<or> reserveA p < tiny \<or> reserveB p < tiny"
  shows "fst (swap p amount_in direction) = 0
       \<and> reserveA (snd (swap p amount_in direction)) = reserveA p
       \<and> reserveB (snd (swap p amount_in direction)) = reserveB p
       \<and> K (snd (swap p amount_in direction)) = K p
       \<and> liquidity_shares (snd (swap p amount_in direction)) = liquidity_shares p"
  using assms by (auto simp: swap_def)

theorem swap_degenerate_noop_witness:
  "fst (swap (new_amm 0.003) 5 ''buy'') = 0
   \<and> reserveA (snd (swap (new_amm 0.003) 5 ''buy'')) = 0
   \<and> K (snd (swap (new_amm 0.003) 5 ''buy'')) = 0"
proof -
  have "reserveA (new_amm 0.003) < tiny"
    by (simp add: new_amm_def tiny_def)
  then have "5 \<le> (0::real) \<or> reserveA (new_amm 0.003) < tiny \<or> reserveB (new_amm 0.003) < tiny"
    by simp
  from swap_degenerate_noop [OF this, of "''buy''"] show ?thesis
    by (simp add: new_amm_def)
qed

lemma pool_1000_1200_eq:
  "pool_1000_1200 =
     \<lparr>fee_rate = 0.003, reserveA = 1000, reserveB = 1200, K = 1200000,
      liquidity_shares = 2200\<rparr>"
  by (simp add: pool_1000_1200_def add_liquidity_def new_amm_def tiny_def)

lemma pool_1000_1200_fields:
  "fee_rate pool_1000_1200 = 0.003" "reserveA pool_1000_1200 = 1000"
  "reserveB pool_1000_1200 = 1200" "K pool_1000_1200 = 1200000"
  by (simp_all add: pool_1000_1200_eq)

lemma pool_200_300_eq:
  "pool_200_300 =
     \<lparr>fee_rate = 0.003, reserveA = 200, reserveB = 300, K = 60000,
      liquidity_shares = 500\<rparr>"
  by (simp add: pool_200_300_def add_liquidity_def new_amm_def tiny_def)

text \<open>
  C1 (amended): on a pool whose reserves are both at least \<^verbatim>\<open>1e-12\<close>, \<open>swap\<close> of a
  positive amount in direction \<^verbatim>\<open>"buy"\<close> sets \<open>reserveB' = reserveB + amount_in * (1 - fee_rate)\<close>
  and \<open>reserveA' = K / reserveB'\<close> (the source's guard gives 0 should \<open>reserveB'\<close> be 0) and
  returns \<open>reserveA - reserveA'\<close> clamped at 0. On the pool made by
  \<open>add_liquidity(1000, 1200)\<close> with fee rate 0.003, \<open>swap(100, "buy")\<close> returns
  \<open>1000 - (1000 * 1200) / (1200 + 100 * 0.997)\<close>, which lies between 76.70 and 76.72.
\<close>

theorem swap_buy:
  assumes "tiny \<le> reserveA p" and "tiny \<le> reserveB p" and "0 < amount_in"
  shows "reserveB (snd (swap p amount_in ''buy'')) = reserveB p + amount_in * (1 - fee_rate p)
       \<and> reserveA (snd (swap p amount_in ''buy'')) =
           (if reserveB (snd (swap p amount_in ''buy'')) = 0 then 0
            else K p / reserveB (snd (swap p amount_in ''buy'')))
       \<and> fst (swap p amount_in ''buy'') = max 0 (reserveA p - reserveA (snd (swap p amount_in ''buy'')))
       \<and> fst (swap pool_1000_1200 100 ''buy'') = 1000 - (1000 * 1200) / (1200 + 100 * 0.997)
       \<and> 76.70 < fst (swap pool_1000_1200 100 ''buy'')
       \<and> fst (swap pool_1000_1200 100 ''buy'') < 76.72"
proof -
  have nd: "\<not> amount_in \<le> 0" "\<not> (reserveA p < tiny \<or> reserveB p < tiny)"
    using assms by auto
  have general: "reserveB (snd (swap p amount_in ''buy'')) = reserveB p + amount_in * (1 - fee_rate p)"
    "reserveA (snd (swap p amount_in ''buy'')) =
           (if reserveB (snd (swap p amount_in ''buy'')) = 0 then 0
            else K p / reserveB (snd (swap p amount_in ''buy'')))"
    "fst (swap p amount_in ''buy'') = max 0 (reserveA p - reserveA (snd (swap p amount_in ''buy'')))"
    using nd by (simp_all add: swap_def Let_def max_def)
  have concrete: "fst (swap pool_1000_1200 100 ''buy'') = 1000 - (1000 * 1200) / (1200 + 100 * 0.997)"
    "76.70 < fst (swap pool_1000_1200 100 ''buy'')"
    "fst (swap pool_1000_1200 100 ''buy'') < 76.72"
    by (simp_all add: pool_1000_1200_eq swap_def tiny_def Let_def)
  from general concrete show ?thesis by blast
qed

theorem swap_buy_witness:
  "tiny \<le> reserveA pool_1000_1200 \<and> tiny \<le> reserveB pool_1000_1200 \<and> (0::real) < 100
   \<and> reserveB (snd (swap pool_1000_1200 100 ''buy'')) = 1299.7
   \<and> reserveA (snd (swap pool_1000_1200 100 ''buy'')) = 1200000 / 1299.7
   \<and> fst (swap pool_1000_1200 100 ''buy'') = 1000 - 1200000 / 1299.7"
proof -
  have h: "tiny \<le> reserveA pool_1000_1200" "tiny \<le> reserveB pool_1000_1200" "(0::real) < 100"
    by (simp_all add: pool_1000_1200_fields tiny_def)
  note g = swap_buy [OF h]
  have b: "reserveB (snd (swap pool_1000_1200 100 ''buy'')) = 1299.7"
    using g by (simp add: pool_1000_1200_fields)
  have a: "reserveA (snd (swap pool_1000_1200 100 ''buy'')) = 1200000 / 1299.7"
    using g unfolding b by (simp add: pool_1000_1200_fields)
  have out: "fst (swap pool_1000_1200 100 ''buy'') = 1000 - 1200000 / 1299.7"
    using g unfolding a by (simp add: pool_1000_1200_fields)
  from h a b out show ?thesis by blast
qed

text \<open>
  The value 79.67 is not what that swap returns: the result is not within 0.005 of it.
\<close>

theorem swap_buy_79_67_counterexample:
  "fst (swap pool_1000_1200 100 ''buy'') = 1000 - (1000 * 1200) / (1200 + 100 * 0.997)
 \<and> fst (swap pool_1000_1200 100 ''buy'') < 76.72
 \<and> \<not> \<bar>fst (swap pool_1000_1200 100 ''buy'') - 79.67\<bar> \<le> 0.005"
  by (simp add: pool_1000_1200_eq swap_def tiny_def Let_def)

text \<open>
  C6 (amended): starting from a pool with \<open>reserveA = 0\<close> and \<open>reserveB = 0\<close>,
  \<open>add_liquidity a b\<close> followed by \<open>get_price\<close> yields \<open>b / a\<close> when \<open>a\<close> is at least
  \<^verbatim>\<open>1e-12\<close>, and 0 when \<open>a\<close> is below it.
\<close>

theorem add_liquidity_then_get_price:
  assumes "reserveA p = 0" and "reserveB p = 0"
  shows "(tiny \<le> a \<longrightarrow> get_price (snd (add_liquidity p a b)) = b / a)
       \<and> (a < tiny \<longrightarrow> get_price (snd (add_liquidity p a b)) = 0)"
  using assms tiny_pos by (simp add: add_liquidity_def get_price_def)

theorem add_liquidity_then_get_price_witness:
  "reserveA (new_amm 0.003) = 0 \<and> reserveB (new_amm 0.003) = 0
   \<and> get_price (snd (add_liquidity (new_amm 0.003) 1000 1200)) = 1.2
   \<and> get_price (snd (add_liquidity (new_amm 0.003) (1 / 10 ^ 13) 1)) = 0"
proof -
  have h: "reserveA (new_amm 0.003) = 0" "reserveB (new_amm 0.003) = 0"
    by (simp_all add: new_amm_def)
  from add_liquidity_then_get_price [OF h, of 1000 1200]
    add_liquidity_then_get_price [OF h, of "1 / 10 ^ 13" 1] h
  show ?thesis by (simp add: tiny_def)
qed

text \<open>
  A positive deposit below \<^verbatim>\<open>1e-12\<close>: the price read back is 0, not \<open>b / a\<close>.
\<close>

theorem get_price_tiny_deposit_counterexample:
  "(0::real) < 1 / 10 ^ 13 \<and> (0::real) < 1
   \<and> reserveA (new_amm 0.003) = 0 \<and> reserveB (new_amm 0.003) = 0
   \<and> get_price (snd (add_liquidity (new_amm 0.003) (1 / 10 ^ 13) 1)) \<noteq> 1 / (1 / 10 ^ 13)"
  by (simp add: new_amm_def add_liquidity_def get_price_def tiny_def)

lemma call_keeps_K:
  "K p = reserveA p * reserveB p \<Longrightarrow>
     K (call p c) = reserveA (call p c) * reserveB (call p c)"
  by (cases c) (auto simp: add_liquidity_def remove_liquidity_def swap_def Let_def)

lemma calls_keep_K:
  "K p = reserveA p * reserveB p \<Longrightarrow>
     K (calls p cs) = reserveA (calls p cs) * reserveB (calls p cs)"
  by (induction cs arbitrary: p) (simp_all add: call_keeps_K)

text \<open>
  C2: start from a newly constructed pool and apply any finite list of calls of
  \<open>add_liquidity\<close>, \<open>remove_liquidity\<close>, \<open>swap\<close>, \<open>get_price\<close> and
  \<open>total_liquidity_shares\<close> with any arguments. After every call of the list (after the
  first \<open>n\<close> calls, for every \<open>n\<close>) the field \<open>K\<close> is the product of the two reserves.
\<close>

theorem K_is_product_after_every_call:
  "K (calls (new_amm fee) (take n cs))
     = reserveA (calls (new_amm fee) (take n cs)) * reserveB (calls (new_amm fee) (take n cs))"
  by (rule calls_keep_K) (simp add: new_amm_def)

theorem K_is_product_after_every_call_witness:
  "K (calls (new_amm 0.003)
        [Call_add_liquidity 1000 1200, Call_swap 100 ''buy'', Call_remove_liquidity 0.5,
         Call_get_price, Call_remove_liquidity (- 1), Call_swap 0 ''sell''])
   = reserveA (calls (new_amm 0.003)
        [Call_add_liquidity 1000 1200, Call_swap 100 ''buy'', Call_remove_liquidity 0.5,
         Call_get_price, Call_remove_liquidity (- 1), Call_swap 0 ''sell''])
   * reserveB (calls (new_amm 0.003)
        [Call_add_liquidity 1000 1200, Call_swap 100 ''buy'', Call_remove_liquidity 0.5,
         Call_get_price, Call_remove_liquidity (- 1), Call_swap 0 ''sell''])"
proof -
  let ?cs = "[Call_add_liquidity 1000 1200, Call_swap 100 ''buy'', Call_remove_liquidity 0.5,
         Call_get_price, Call_remove_liquidity (- 1), Call_swap 0 ''sell'']"
  have t: "take 6 ?cs = ?cs" by simp
  from K_is_product_after_every_call [of "0.003" 6 ?cs] show ?thesis
    unfolding t .
qed

lemma remove_liquidity_rounded_id:
  "remove_liquidity_rounded (\<lambda>x. x) p f = remove_liquidity p f"
  by (simp add: remove_liquidity_rounded_def remove_liquidity_def)



















section \<open>Properties of the environment\<close>

lemma zero_rewards_other:
  "nm \<notin> name ` set ags \<Longrightarrow> zero_rewards ags r nm = r nm"
  by (induction ags arbitrary: r) auto

lemma zero_rewards_named:
  "nm \<in> name ` set ags \<Longrightarrow> zero_rewards ags r nm = Some 0"
proof (induction ags arbitrary: r)
  case Nil
  then show ?case by simp
next
  case (Cons b ags)
  show ?case
  proof (cases "nm \<in> name ` set ags")
    case True
    with Cons.IH show ?thesis by simp
  next
    case False
    with Cons.prems have "nm = name b" by auto
    with False show ?thesis by (simp add: zero_rewards_other)
  qed
qed

lemma zero_rewards_zero:
  "ag \<in> set ags \<Longrightarrow> zero_rewards ags r (name ag) = Some 0"
  by (rule zero_rewards_named) simp

lemma step_env_200_300: "step env_200_300 = Inr (True, env_after_run)"
  apply (simp add: step_def env_200_300_def new_env_def scripted_def Let_def env_after_run_def)
  apply (simp add: execute_action_def remove_action_def add_reward_def Let_def
      remove_liquidity_def pool_200_300_eq get_price_def)
  done

lemma pool_after_remove_half:
  "fst (remove_liquidity pool_200_300 (1 / 2)) = Some (100, 150)"
  "reserveA (snd (remove_liquidity pool_200_300 (1 / 2))) = 100"
  "reserveB (snd (remove_liquidity pool_200_300 (1 / 2))) = 150"
  by (simp_all add: remove_liquidity_def pool_200_300_eq Let_def)

lemma run_env_200_300: "run_simulation env_200_300 = Inr env_after_run"
proof -
  have r: "reset env_200_300 = env_200_300"
    by (simp add: reset_def env_200_300_def new_env_def scripted_def)
  have s2: "step env_after_run = Inr (False, env_after_run)"
    by (simp add: step_def env_after_run_def env_200_300_def new_env_def)
  have "run_loop env_after_run = Inr env_after_run"
    by (subst run_loop.simps) (simp add: s2)
  then have "run_loop env_200_300 = Inr env_after_run"
    by (subst run_loop.simps) (simp add: step_env_200_300)
  with r show ?thesis by (simp add: run_simulation_def)
qed

lemma step_reset_env_after_run:
  "step (reset env_after_run) =
     Inr (True, env_after_run\<lparr>amm := snd (remove_liquidity (snd (remove_liquidity pool_200_300 (1 / 2))) (1 / 2)),
                            rewards := [''lp'' \<mapsto> 150],
                            current_step := 1\<rparr>)"
  apply (simp add: step_def reset_def env_after_run_def env_200_300_def new_env_def scripted_def Let_def)
  apply (simp add: execute_action_def remove_action_def add_reward_def Let_def
      remove_liquidity_def pool_200_300_eq get_price_def)
  done

lemma collect_actions_names:
  "map name (fst (collect_actions ags obs actions)) = map name ags"
  by (induction ags arbitrary: actions) (simp_all add: split_beta Let_def)

lemma collect_actions_other:
  "nm \<notin> name ` set ags \<Longrightarrow> snd (collect_actions ags obs actions) nm = actions nm"
  by (induction ags arbitrary: actions) (simp_all add: split_beta Let_def)

lemma collect_actions_own:
  assumes "distinct (map name ags)" and "k < length ags"
  shows "snd (collect_actions ags obs actions) (name (ags ! k))
           = Some (fst (act (ags ! k) (memory (ags ! k)) obs))"
  using assms
proof (induction ags arbitrary: actions k)
  case Nil
  then show ?case by simp
next
  case (Cons ag ags)
  show ?case
  proof (cases k)
    case 0
    from Cons.prems(1) have "name ag \<notin> name ` set ags" by simp
    with 0 show ?thesis
      by (simp add: split_beta Let_def collect_actions_other)
  next
    case (Suc k')
    with Cons.prems have "distinct (map name ags)" "k' < length ags" by simp_all
    from Cons.IH [OF this] Suc show ?thesis
      by (simp add: split_beta Let_def)
  qed
qed

lemma execute_actions_split:
  "execute_actions (pre @ ag # post) actions price e =
     (case execute_actions pre actions price e of
        Inl err \<Rightarrow> Inl err
      | Inr e1 \<Rightarrow>
          (case actions (name ag) of
             None \<Rightarrow> Inl (KeyError (name ag))
           | Some a \<Rightarrow>
               (case execute_action e1 price (name ag) a of
                  Inl err \<Rightarrow> Inl err
                | Inr e2 \<Rightarrow> execute_actions post actions price e2)))"
  by (induction pre arbitrary: e) (simp_all split: option.splits sum.splits)

text \<open>
  With distinct names the action held under an agent's name is the one its own
  \<^verbatim>\<open>act\<close> returned.
\<close>

lemma stored_action_own:
  assumes "collect_actions ags0 obs Map.empty = (ags, actions)"
    and "actions (name (ags0 ! k)) = Some a" and "k < length ags0"
    and "distinct (map name ags0)"
  shows "a = fst (act (ags0 ! k) (memory (ags0 ! k)) obs)"
proof -
  from assms(1) have "actions = snd (collect_actions ags0 obs Map.empty)" by simp
  with collect_actions_own [OF assms(4,3), of obs Map.empty] assms(2) show ?thesis by simp
qed

text \<open>
  A tick seen from the turn of the agent at position \<open>k\<close>: the earlier agents' turns
  have left \<open>e1\<close>, the action \<open>a\<close> held under its name is executed on \<open>e1\<close> at the reference
  price of the step, then come the later agents and the step counter.
\<close>

lemma step_at_turn:
  assumes live: "current_step e < num_steps e" "current_step e < length (reference_prices e)"
    and k: "k < length (agents e)"
    and obs: "obs = \<lparr>amm_price = get_price (amm e),
                      reference_price = reference_prices e ! current_step e,
                      step_key = current_step e\<rparr>"
    and coll: "collect_actions (agents e) obs Map.empty = (ags, actions)"
    and stored: "actions (name (agents e ! k)) = Some a"
    and before: "execute_actions (take k ags) actions (reference_prices e ! current_step e)
                   (e\<lparr>agents := ags\<rparr>) = Inr e1"
  shows "step e =
     (case execute_action e1 (reference_prices e ! current_step e) (name (agents e ! k)) a of
        Inl err \<Rightarrow> Inl err
      | Inr e2 \<Rightarrow>
          (case execute_actions (drop (Suc k) ags) actions
                  (reference_prices e ! current_step e) e2 of
             Inl err \<Rightarrow> Inl err
           | Inr e3 \<Rightarrow> Inr (True, e3\<lparr>current_step := current_step e3 + 1\<rparr>)))"
proof -
  from coll have ags: "ags = fst (collect_actions (agents e) obs Map.empty)"
    and acts: "actions = snd (collect_actions (agents e) obs Map.empty)" by simp_all
  have nm: "map name ags = map name (agents e)"
    unfolding ags by (rule collect_actions_names)
  then have len: "length ags = length (agents e)" by (metis length_map)
  with k have k': "k < length ags" by simp
  from nm k k' have nk: "name (ags ! k) = name (agents e ! k)"
    by (metis nth_map)
  have split: "ags = take k ags @ ags ! k # drop (Suc k) ags"
    using k' by (simp add: id_take_nth_drop)
  have "execute_actions ags actions (reference_prices e ! current_step e) (e\<lparr>agents := ags\<rparr>) =
      (case execute_action e1 (reference_prices e ! current_step e) (name (agents e ! k)) a of
         Inl err \<Rightarrow> Inl err
       | Inr e2 \<Rightarrow> execute_actions (drop (Suc k) ags) actions
                      (reference_prices e ! current_step e) e2)"
    by (subst split) (simp add: execute_actions_split before stored nk)
  with live coll show ?thesis
    unfolding step_def obs [symmetric]
    by (simp add: Let_def obs [symmetric] split: sum.splits)
qed

lemma execute_remove_liquidity:
  assumes "act_type a = Some ''remove_liquidity''"
    and "act_amount_tokenA a = Some fA" and "act_amount_tokenB a = Some fB"
    and "rewards e nm = Some r"
  shows "execute_action e price nm a =
           Inr (case fst (remove_liquidity (amm e) (min fA fB)) of
                  None \<Rightarrow> e
                | Some (outA, outB) \<Rightarrow>
                    e\<lparr>amm := snd (remove_liquidity (amm e) (min fA fB)),
                      rewards := (rewards e)(nm \<mapsto> r + (outA * price + outB))\<rparr>)"
proof (cases "fst (remove_liquidity (amm e) (min fA fB))")
  case None
  then have "remove_liquidity (amm e) (min fA fB) = (None, amm e)"
    by (auto simp: remove_liquidity_def Let_def split: if_splits)
  with assms show ?thesis
    by (simp add: execute_action_def add_reward_def Let_def)
next
  case (Some out)
  obtain res p' where rp: "remove_liquidity (amm e) (min fA fB) = (res, p')"
    by (cases "remove_liquidity (amm e) (min fA fB)")
  with Some have "res = Some out" by simp
  with assms rp show ?thesis
    by (cases out) (simp add: execute_action_def add_reward_def Let_def)
qed

lemma remove_quarter:
  "remove_liquidity (snd (remove_liquidity pool_200_300 (1 / 2))) (1 / 2) =
     (Some (50, 75),
      \<lparr>fee_rate = 3 / 1000, reserveA = 50, reserveB = 75, K = 3750,
       liquidity_shares = 125\<rparr>)"
  by (simp add: remove_liquidity_def pool_200_300_eq Let_def)

text \<open>
  C7: take any tick (the step counter is inside the price series) and the agent at any
  position \<open>k\<close> for which the tick holds the action \<open>remove_liquidity\<close> with fractions
  \<open>(fA, fB)\<close>; when the agents' names are distinct this is the action the agent itself
  returned. When its turn comes (the earlier agents' turns have left \<open>e1\<close>) the tick
  calls the pool's \<open>remove_liquidity\<close> with \<open>min fA fB\<close>; if that returns a pair
  \<open>(outA, outB)\<close>, the agent's reward grows by \<open>outA\<close> times the reference price of
  the step plus \<open>outB\<close>, and if it returns \<open>None\<close> pool and reward stay as they
  were; then the later agents take their turns and the step counter advances. With one
  scripted agent proposing
  \<open>remove_liquidity(0.5, 0.5)\<close> on the pool holding (200, 300) and reference price 1.5
  at step 0, one tick leaves that agent's reward at \<open>100 * 1.5 + 150 = 300\<close> and the
  reserves at (100, 150).
\<close>

theorem remove_liquidity_tick:
  assumes "current_step e < num_steps e" and "current_step e < length (reference_prices e)"
    and "k < length (agents e)"
    and "obs = \<lparr>amm_price = get_price (amm e),
                 reference_price = reference_prices e ! current_step e,
                 step_key = current_step e\<rparr>"
    and "collect_actions (agents e) obs Map.empty = (ags, actions)"
    and "actions (name (agents e ! k)) = Some a"
    and "act_type a = Some ''remove_liquidity''"
    and "act_amount_tokenA a = Some fA" and "act_amount_tokenB a = Some fB"
    and "execute_actions (take k ags) actions (reference_prices e ! current_step e)
           (e\<lparr>agents := ags\<rparr>) = Inr e1"
    and "rewards e1 (name (agents e ! k)) = Some r"
  shows "step e =
     (case execute_actions (drop (Suc k) ags) actions (reference_prices e ! current_step e)
             (case fst (remove_liquidity (amm e1) (min fA fB)) of
                None \<Rightarrow> e1
              | Some (outA, outB) \<Rightarrow>
                  e1\<lparr>amm := snd (remove_liquidity (amm e1) (min fA fB)),
                     rewards := (rewards e1)
                       (name (agents e ! k) \<mapsto>
                          r + (outA * (reference_prices e ! current_step e) + outB))\<rparr>) of
        Inl err \<Rightarrow> Inl err
      | Inr e2 \<Rightarrow> Inr (True, e2\<lparr>current_step := current_step e2 + 1\<rparr>))
   \<and> (distinct (map name (agents e)) \<longrightarrow>
        a = fst (act (agents e ! k) (memory (agents e ! k)) obs))
   \<and> (\<exists>e'. step env_200_300 = Inr (True, e')
          \<and> rewards e' ''lp'' = Some (100 * 1.5 + 150) \<and> rewards e' ''lp'' = Some 300
          \<and> reserveA (amm e') = 100 \<and> reserveB (amm e') = 150)"
proof -
  note turn = step_at_turn [OF assms(1-6) assms(10)]
  note exec = execute_remove_liquidity [OF assms(7-9) assms(11),
      of "reference_prices e ! current_step e"]
  have own: "distinct (map name (agents e)) \<longrightarrow>
        a = fst (act (agents e ! k) (memory (agents e ! k)) obs)"
    using stored_action_own [OF assms(5,6,3)] by blast
  have general: "step e =
     (case execute_actions (drop (Suc k) ags) actions (reference_prices e ! current_step e)
             (case fst (remove_liquidity (amm e1) (min fA fB)) of
                None \<Rightarrow> e1
              | Some (outA, outB) \<Rightarrow>
                  e1\<lparr>amm := snd (remove_liquidity (amm e1) (min fA fB)),
                     rewards := (rewards e1)
                       (name (agents e ! k) \<mapsto>
                          r + (outA * (reference_prices e ! current_step e) + outB))\<rparr>) of
        Inl err \<Rightarrow> Inl err
      | Inr e2 \<Rightarrow> Inr (True, e2\<lparr>current_step := current_step e2 + 1\<rparr>))"
    unfolding turn exec by simp
  have "rewards env_after_run ''lp'' = Some (100 * 1.5 + 150)"
    "rewards env_after_run ''lp'' = Some 300"
    "reserveA (amm env_after_run) = 100" "reserveB (amm env_after_run) = 150"
    by (simp_all add: env_after_run_def pool_after_remove_half)
  with step_env_200_300 general own show ?thesis by blast
qed

text \<open>
  Two removers at reference price 2 on the (200, 300) pool: the first takes
  \<open>100 * 2 + 150\<close>, the second, with fractions (0.5, 1), half of what is left,
  \<open>50 * 2 + 75\<close>.
\<close>

theorem remove_liquidity_tick_witness:
  "\<exists>e'. step env_two_removers = Inr (True, e')
      \<and> rewards e' ''first'' = Some (100 * 2 + 150)
      \<and> rewards e' ''second'' = Some (50 * 2 + 75)
      \<and> reserveA (amm e') = 50 \<and> reserveB (amm e') = 75
      \<and> current_step e' = 1"
proof -
  let ?e = env_two_removers
  let ?first = "scripted ''first'' (remove_action (1 / 2) (1 / 2))"
  let ?second = "scripted ''second'' (remove_action (1 / 2) 1)"
  let ?obs = "\<lparr>amm_price = get_price (amm ?e),
               reference_price = reference_prices ?e ! current_step ?e,
               step_key = current_step ?e\<rparr>"
  let ?actions = "[''first'' \<mapsto> remove_action (1 / 2) (1 / 2),
                   ''second'' \<mapsto> remove_action (1 / 2) 1]"
  have f: "agents ?e = [?first, ?second]" "reference_prices ?e = [2]" "current_step ?e = 0"
    "num_steps ?e = 1" "amm ?e = pool_200_300"
    "rewards ?e = [''first'' \<mapsto> 0, ''second'' \<mapsto> 0]"
    by (simp_all add: env_two_removers_def new_env_def scripted_def)
  have h1: "current_step ?e < num_steps ?e" "current_step ?e < length (reference_prices ?e)"
    "0 < length (agents ?e)"
    by (simp_all add: f)
  have h5: "?obs = ?obs" ..
  have h6: "collect_actions (agents ?e) ?obs Map.empty = ([?first, ?second], ?actions)"
    by (simp add: f scripted_def)
  have h7: "?actions (name (agents ?e ! 0)) = Some (remove_action (1 / 2) (1 / 2))"
    by (simp add: f scripted_def)
  have h8: "act_type (remove_action (1 / 2) (1 / 2)) = Some ''remove_liquidity''"
    "act_amount_tokenA (remove_action (1 / 2) (1 / 2)) = Some (1 / 2)"
    "act_amount_tokenB (remove_action (1 / 2) (1 / 2)) = Some (1 / 2)"
    by (simp_all add: remove_action_def)
  have h11: "execute_actions (take 0 [?first, ?second]) ?actions
           (reference_prices ?e ! current_step ?e) (?e\<lparr>agents := [?first, ?second]\<rparr>)
         = Inr (?e\<lparr>agents := [?first, ?second]\<rparr>)"
    by simp
  have h12: "rewards (?e\<lparr>agents := [?first, ?second]\<rparr>) (name (agents ?e ! 0)) = Some 0"
    by (simp add: f scripted_def)
  note tick = remove_liquidity_tick [OF h1 h5 h6 h7 h8 h11 h12]
  from tick have first: "step ?e =
     Inr (True, ?e\<lparr>agents := [?first, ?second],
                    amm := \<lparr>fee_rate = 3 / 1000, reserveA = 50, reserveB = 75, K = 3750,
                            liquidity_shares = 125\<rparr>,
                    rewards := [''first'' \<mapsto> 350, ''second'' \<mapsto> 175],
                    current_step := 1\<rparr>)"
    by (simp add: f scripted_def pool_after_remove_half remove_quarter execute_action_def
        remove_action_def add_reward_def Let_def)
  let ?half = "\<lparr>fee_rate = 3 / 1000, reserveA = 100, reserveB = 150, K = 15000,
                 liquidity_shares = 250\<rparr>"
  let ?e1 = "?e\<lparr>agents := [?first, ?second], amm := ?half,
                 rewards := [''second'' \<mapsto> 0, ''first'' \<mapsto> 350]\<rparr>"
  have half: "remove_liquidity pool_200_300 (1 / 2) = (Some (100, 150), ?half)"
    by (simp add: remove_liquidity_def pool_200_300_eq Let_def)
  have k1: "1 < length (agents ?e)" by (simp add: f)
  have s7: "?actions (name (agents ?e ! 1)) = Some (remove_action (1 / 2) 1)"
    by (simp add: f scripted_def)
  have s8: "act_type (remove_action (1 / 2) 1) = Some ''remove_liquidity''"
    "act_amount_tokenA (remove_action (1 / 2) 1) = Some (1 / 2)"
    "act_amount_tokenB (remove_action (1 / 2) 1) = Some 1"
    by (simp_all add: remove_action_def)
  have s11: "execute_actions (take 1 [?first, ?second]) ?actions
           (reference_prices ?e ! current_step ?e) (?e\<lparr>agents := [?first, ?second]\<rparr>)
         = Inr ?e1"
    by (simp add: f scripted_def half execute_action_def
        remove_action_def add_reward_def Let_def)
  have s12: "rewards ?e1 (name (agents ?e ! 1)) = Some 0"
    by (simp add: f scripted_def)
  note tick2 = remove_liquidity_tick [OF h1(1,2) k1 h5 h6 s7 s8 s11 s12]
  from tick2 have second: "\<exists>e'. step ?e = Inr (True, e')
      \<and> rewards e' ''second'' = Some (0 + (50 * 2 + 75))
      \<and> reserveA (amm e') = 100 - 100 * min (1 / 2) 1
      \<and> reserveB (amm e') = 150 - 150 * min (1 / 2) 1"
    by (simp add: f scripted_def remove_liquidity_def Let_def)
  from first second show ?thesis
    by simp
qed

lemma execute_degenerate_trade:
  assumes "act_type a = Some ''trade''" and "act_amount a = Some x" and "0 < x"
    and "reserveA (amm e) < tiny \<or> reserveB (amm e) < tiny"
    and "rewards e nm = Some r"
  shows "swap (amm e) x d = (0, amm e)"
    and "act_direction a = Some ''buy'' \<Longrightarrow>
            execute_action e price nm a =
              Inr (e\<lparr>rewards := (rewards e)(nm \<mapsto> r - x),
                     total_volume_tokenB := total_volume_tokenB e + x\<rparr>)"
    and "act_direction a = Some ''sell'' \<Longrightarrow>
            execute_action e price nm a =
              Inr (e\<lparr>rewards := (rewards e)(nm \<mapsto> r - x * price),
                     total_volume_tokenA := total_volume_tokenA e + x\<rparr>)"
proof -
  show sw: "swap (amm e) x d = (0, amm e)" for d
    using assms(3,4) by (auto simp: swap_def)
  show "execute_action e price nm a =
              Inr (e\<lparr>rewards := (rewards e)(nm \<mapsto> r - x),
                     total_volume_tokenB := total_volume_tokenB e + x\<rparr>)"
    if "act_direction a = Some ''buy''"
    using that assms(1,2,3,5) by (simp add: execute_action_def add_reward_def Let_def sw)
  show "execute_action e price nm a =
              Inr (e\<lparr>rewards := (rewards e)(nm \<mapsto> r - x * price),
                     total_volume_tokenA := total_volume_tokenA e + x\<rparr>)"
    if "act_direction a = Some ''sell''"
    using that assms(1,2,3,5) by (simp add: execute_action_def add_reward_def Let_def sw)
qed

text \<open>
  C9: take any tick and the agent at any position \<open>k\<close> for which the tick holds a
  trade of a positive amount; when the agents' names are distinct this is the action the
  agent itself returned. If the pool is
  degenerate when its turn comes (a reserve below \<^verbatim>\<open>1e-12\<close>), the swap returns 0 and
  leaves the pool as it was, and still the tick lowers the agent's reward by the amount
  for direction \<^verbatim>\<open>"buy"\<close> and by the amount times the reference price of the step for
  direction \<^verbatim>\<open>"sell"\<close>, and raises the volume counter of the token paid in by the
  amount; then the later agents take their turns and the step counter advances.
\<close>

theorem degenerate_trade_tick:
  assumes "current_step e < num_steps e" and "current_step e < length (reference_prices e)"
    and "k < length (agents e)"
    and "obs = \<lparr>amm_price = get_price (amm e),
                 reference_price = reference_prices e ! current_step e,
                 step_key = current_step e\<rparr>"
    and "collect_actions (agents e) obs Map.empty = (ags, actions)"
    and "actions (name (agents e ! k)) = Some a"
    and "act_type a = Some ''trade''" and "act_amount a = Some x" and "0 < x"
    and "execute_actions (take k ags) actions (reference_prices e ! current_step e)
           (e\<lparr>agents := ags\<rparr>) = Inr e1"
    and "reserveA (amm e1) < tiny \<or> reserveB (amm e1) < tiny"
    and "rewards e1 (name (agents e ! k)) = Some r"
  shows "swap (amm e1) x d = (0, amm e1)
   \<and> (act_direction a = Some ''buy'' \<longrightarrow>
        step e =
          (case execute_actions (drop (Suc k) ags) actions (reference_prices e ! current_step e)
                  (e1\<lparr>rewards := (rewards e1)(name (agents e ! k) \<mapsto> r - x),
                      total_volume_tokenB := total_volume_tokenB e1 + x\<rparr>) of
             Inl err \<Rightarrow> Inl err
           | Inr e2 \<Rightarrow> Inr (True, e2\<lparr>current_step := current_step e2 + 1\<rparr>)))
   \<and> (act_direction a = Some ''sell'' \<longrightarrow>
        step e =
          (case execute_actions (drop (Suc k) ags) actions (reference_prices e ! current_step e)
                  (e1\<lparr>rewards := (rewards e1)
                        (name (agents e ! k) \<mapsto>
                           r - x * (reference_prices e ! current_step e)),
                      total_volume_tokenA := total_volume_tokenA e1 + x\<rparr>) of
             Inl err \<Rightarrow> Inl err
           | Inr e2 \<Rightarrow> Inr (True, e2\<lparr>current_step := current_step e2 + 1\<rparr>)))
   \<and> (distinct (map name (agents e)) \<longrightarrow>
        a = fst (act (agents e ! k) (memory (agents e ! k)) obs))"
proof -
  note turn = step_at_turn [OF assms(1-6) assms(10)]
  note exec = execute_degenerate_trade [OF assms(7-9) assms(11,12)]
  have own: "distinct (map name (agents e)) \<longrightarrow>
        a = fst (act (agents e ! k) (memory (agents e ! k)) obs)"
    using stored_action_own [OF assms(5,6,3)] by blast
  show ?thesis
    unfolding turn using own by (simp add: exec)
qed

text \<open>
  A seller of 5 and a buyer of 3 on an empty pool at reference price 1.5: the rewards
  end at \<open>- 7.5\<close> and \<open>- 3\<close>, the volumes at 5 and 3, the pool is untouched.
\<close>

theorem degenerate_trade_tick_witness:
  "\<exists>e'. step env_two_traders = Inr (True, e')
      \<and> rewards e' ''seller'' = Some (- (5 * (3 / 2)))
      \<and> rewards e' ''buyer'' = Some (- 3)
      \<and> total_volume_tokenA e' = 5 \<and> total_volume_tokenB e' = 3
      \<and> amm e' = new_amm 0.003
      \<and> current_step e' = 1"
proof -
  let ?e = env_two_traders
  let ?seller = "scripted ''seller'' (trade_action ''sell'' 5)"
  let ?buyer = "scripted ''buyer'' (trade_action ''buy'' 3)"
  let ?obs = "\<lparr>amm_price = get_price (amm ?e),
               reference_price = reference_prices ?e ! current_step ?e,
               step_key = current_step ?e\<rparr>"
  let ?actions = "[''seller'' \<mapsto> trade_action ''sell'' 5, ''buyer'' \<mapsto> trade_action ''buy'' 3]"
  have f: "agents ?e = [?seller, ?buyer]" "reference_prices ?e = [3 / 2]" "current_step ?e = 0"
    "num_steps ?e = 1" "amm ?e = new_amm 0.003"
    "rewards ?e = [''seller'' \<mapsto> 0, ''buyer'' \<mapsto> 0]"
    "total_volume_tokenA ?e = 0" "total_volume_tokenB ?e = 0"
    by (simp_all add: env_two_traders_def new_env_def scripted_def)
  have h1: "current_step ?e < num_steps ?e" "current_step ?e < length (reference_prices ?e)"
    "0 < length (agents ?e)"
    by (simp_all add: f)
  have h5: "?obs = ?obs" ..
  have h6: "collect_actions (agents ?e) ?obs Map.empty = ([?seller, ?buyer], ?actions)"
    by (simp add: f scripted_def)
  have h7: "?actions (name (agents ?e ! 0)) = Some (trade_action ''sell'' 5)"
    by (simp add: f scripted_def)
  have h8: "act_type (trade_action ''sell'' 5) = Some ''trade''"
    "act_amount (trade_action ''sell'' 5) = Some 5" "(0::real) < 5"
    by (simp_all add: trade_action_def)
  have h11: "execute_actions (take 0 [?seller, ?buyer]) ?actions
           (reference_prices ?e ! current_step ?e) (?e\<lparr>agents := [?seller, ?buyer]\<rparr>)
         = Inr (?e\<lparr>agents := [?seller, ?buyer]\<rparr>)"
    by simp
  have h12: "reserveA (amm (?e\<lparr>agents := [?seller, ?buyer]\<rparr>)) < tiny
      \<or> reserveB (amm (?e\<lparr>agents := [?seller, ?buyer]\<rparr>)) < tiny"
    by (simp add: f new_amm_def tiny_def)
  have h13: "rewards (?e\<lparr>agents := [?seller, ?buyer]\<rparr>) (name (agents ?e ! 0)) = Some 0"
    by (simp add: f scripted_def)
  have dir: "act_direction (trade_action ''sell'' 5) = Some ''sell''"
    by (simp add: trade_action_def)
  note tick = degenerate_trade_tick [OF h1 h5 h6 h7 h8 h11 h12 h13, where d = "''sell''"]
  from tick dir have sell: "step ?e =
     Inr (True, ?e\<lparr>agents := [?seller, ?buyer],
                    rewards := [''seller'' \<mapsto> - (15 / 2), ''buyer'' \<mapsto> - 3],
                    total_volume_tokenA := 5, total_volume_tokenB := 3,
                    current_step := 1\<rparr>)"
    by (simp add: f scripted_def execute_action_def trade_action_def add_reward_def Let_def
        swap_def new_amm_def tiny_def)
  let ?e1 = "?e\<lparr>agents := [?seller, ?buyer],
                 rewards := [''buyer'' \<mapsto> 0, ''seller'' \<mapsto> - (15 / 2)],
                 total_volume_tokenA := 5\<rparr>"
  have k1: "1 < length (agents ?e)" by (simp add: f)
  have s7: "?actions (name (agents ?e ! 1)) = Some (trade_action ''buy'' 3)"
    by (simp add: f scripted_def)
  have s8: "act_type (trade_action ''buy'' 3) = Some ''trade''"
    "act_amount (trade_action ''buy'' 3) = Some 3" "(0::real) < 3"
    by (simp_all add: trade_action_def)
  have s11: "execute_actions (take 1 [?seller, ?buyer]) ?actions
           (reference_prices ?e ! current_step ?e) (?e\<lparr>agents := [?seller, ?buyer]\<rparr>)
         = Inr ?e1"
    by (simp add: f scripted_def execute_action_def trade_action_def add_reward_def Let_def
        swap_def new_amm_def tiny_def)
  have s12: "reserveA (amm ?e1) < tiny \<or> reserveB (amm ?e1) < tiny"
    by (simp add: f new_amm_def tiny_def)
  have s13: "rewards ?e1 (name (agents ?e ! 1)) = Some 0"
    by (simp add: f scripted_def)
  have dir2: "act_direction (trade_action ''buy'' 3) = Some ''buy''"
    by (simp add: trade_action_def)
  note tick2 = degenerate_trade_tick [OF h1(1,2) k1 h5 h6 s7 s8 s11 s12 s13, where d = "''buy''"]
  from tick2 dir2 have buy: "\<exists>e'. step ?e = Inr (True, e')
      \<and> rewards e' ''buyer'' = Some (0 - 3) \<and> total_volume_tokenB e' = 0 + 3"
    by (simp add: f scripted_def)
  from sell buy show ?thesis
    by (simp add: f)
qed

text \<open>
  C10: \<open>reset\<close> sets \<open>current_step\<close> to 0, the reward of every agent to 0 and both
  volume counters to 0, and leaves the pool (all of its fields) as it was;
  \<open>run_simulation\<close> is the stepping loop started from the reset environment, so it
  starts on the pool that earlier activity left.
\<close>

theorem reset_keeps_pool:
  "current_step (reset e) = 0
 \<and> (\<forall>ag \<in> set (agents e). rewards (reset e) (name ag) = Some 0)
 \<and> total_volume_tokenA (reset e) = 0
 \<and> total_volume_tokenB (reset e) = 0
 \<and> amm (reset e) = amm e
 \<and> run_simulation e = run_loop (reset e)"
  by (simp add: reset_def run_simulation_def zero_rewards_zero)

text \<open>
  A first run on the (200, 300) pool leaves (100, 150); after \<open>reset\<close> the pool still
  holds (100, 150), and a second run goes on from there to (50, 75).
\<close>

theorem reset_keeps_pool_witness:
  "run_simulation env_200_300 = Inr env_after_run
 \<and> current_step env_after_run = 1
 \<and> rewards env_after_run ''lp'' = Some 300
 \<and> current_step (reset env_after_run) = 0
 \<and> rewards (reset env_after_run) ''lp'' = Some 0
 \<and> total_volume_tokenA (reset env_after_run) = 0
 \<and> total_volume_tokenB (reset env_after_run) = 0
 \<and> reserveA (amm (reset env_after_run)) = 100
 \<and> reserveB (amm (reset env_after_run)) = 150
 \<and> (\<exists>e2. run_simulation env_after_run = Inr e2
          \<and> reserveA (amm e2) = 50 \<and> reserveB (amm e2) = 75)"
proof -
  note r = reset_keeps_pool [of env_after_run]
  have ag: "agents env_after_run = [scripted ''lp'' (remove_action 0.5 0.5)]"
    by (simp add: env_after_run_def env_200_300_def new_env_def)
  have before: "current_step env_after_run = 1" "rewards env_after_run ''lp'' = Some 300"
    by (simp_all add: env_after_run_def)
  from r ag have rew: "rewards (reset env_after_run) ''lp'' = Some 0"
    by (simp add: scripted_def)
  from r have pool: "reserveA (amm (reset env_after_run)) = 100"
    "reserveB (amm (reset env_after_run)) = 150"
    by (simp_all add: env_after_run_def pool_after_remove_half)
  let ?e2 = "env_after_run
      \<lparr>amm := snd (remove_liquidity (snd (remove_liquidity pool_200_300 (1 / 2))) (1 / 2)),
        rewards := [''lp'' \<mapsto> 150], current_step := 1\<rparr>"
  have s3: "step ?e2 = Inr (False, ?e2)"
    by (simp add: step_def env_after_run_def env_200_300_def new_env_def)
  have "run_loop ?e2 = Inr ?e2"
    by (subst run_loop.simps, subst s3) simp
  then have "run_loop (reset env_after_run) = Inr ?e2"
    by (subst run_loop.simps, subst step_reset_env_after_run) simp
  with r have run2: "run_simulation env_after_run = Inr ?e2" by simp
  have "reserveA (amm ?e2) = 50" "reserveB (amm ?e2) = 75"
    by (simp_all add: remove_liquidity_def pool_200_300_eq Let_def)
  with run2 have ex: "\<exists>e2. run_simulation env_after_run = Inr e2
          \<and> reserveA (amm e2) = 50 \<and> reserveB (amm e2) = 75"
    by blast
  from r run_env_200_300 before rew pool ex show ?thesis by simp
qed

section \<open>Properties of the Q-policy\<close>

lemma discretize_state_in_table:
  assumes "in_table pol s"
  shows "\<exists>s_next. discretize_state pol obs = Inr s_next \<and> in_table pol s_next"
proof -
  from assms have pos: "0 < num_price_buckets pol" "0 < num_time_buckets pol"
    by (auto simp: in_table_def)
  have "nat (max 0 (min (int (num_price_buckets pol) - 1) b)) < num_price_buckets pol" for b
    using pos(1) by auto
  with pos(2) show ?thesis
    by (simp add: discretize_state_def Let_def in_table_def)
qed

lemma update_q_no_pending:
  "last_state pol = None \<Longrightarrow> update_q pol reward obs done = Inr pol"
  by (simp add: update_q_def)

lemma update_q_clears:
  "update_q pol reward obs done = Inr pol' \<Longrightarrow> last_state pol' = None"
  by (auto simp: update_q_def split: option.splits sum.splits if_splits)

text \<open>
  A selection made by \<open>select_action\<close> on a table with at least one price bucket lies
  inside the table.
\<close>

lemma argmax3_less: "argmax3 q0 q1 q2 < 3"
  by (simp add: argmax3_def)

lemma discretize_state_result:
  assumes "discretize_state pol obs = Inr s" and "0 < num_price_buckets pol"
  shows "in_table pol s"
proof -
  have "nat (max 0 (min (int (num_price_buckets pol) - 1) b)) < num_price_buckets pol" for b
    using assms(2) by auto
  with assms(1) show ?thesis
    by (auto simp: discretize_state_def Let_def in_table_def split: if_splits)
qed

lemma select_action_pending_in_table:
  assumes "select_action pol obs rand randint = Inr (a, pol')"
    and "0 < num_price_buckets pol" and "randint < 3"
  shows "\<exists>i j k. last_state pol' = Some (i, j) \<and> last_action pol' = Some k
           \<and> i < num_price_buckets pol' \<and> j < num_time_buckets pol' \<and> k < 3"
proof -
  from assms(1) obtain s where d: "discretize_state pol obs = Inr s"
    by (auto simp: select_action_def split: sum.splits)
  from discretize_state_result [OF d assms(2)] have t: "in_table pol s" .
  from assms(1,3) d t argmax3_less show ?thesis
    by (cases s) (auto simp: select_action_def Let_def in_table_def split: if_splits)
qed

lemma max_of_three: "Max {a, b, c :: real} = max a (max b c)"
  by simp

text \<open>The doubles of the example.\<close>

lemma round_double_002: "round_double 0.02 = 5764607523034235 / 2 ^ 58"
  by (subst round_double_eval [where j = 58]) (simp_all add: round_half_even_def Let_def)

lemma round_double_148: "round_double 1.48 = 6665327448508334 / 2 ^ 52"
  by (subst round_double_eval [where j = 52]) (simp_all add: round_half_even_def Let_def)

lemma round_double_shift:
  "round_double (5 * (5764607523034235 / 2 ^ 58)) = 7205759403792794 / 2 ^ 56"
  by (subst round_double_eval [where j = 56]) (simp_all add: round_half_even_def Let_def)

lemma round_double_shift_again:
  "round_double (7205759403792794 / 2 ^ 56) = 7205759403792794 / 2 ^ 56"
  by (subst round_double_eval [where j = 56]) (simp_all add: round_half_even_def Let_def)

lemma round_double_diff:
  "round_double (6665327448508334 / 2 ^ 52 - 3 / 2) = - (5764607523034240 / 2 ^ 58)"
proof -
  have "round_double (3 / 2 - 6665327448508334 / 2 ^ 52) = 5764607523034240 / 2 ^ 58"
    by (subst round_double_eval [where j = 58]) (simp_all add: round_half_even_def Let_def)
  then have "round_double (- (3 / 2 - 6665327448508334 / 2 ^ 52)) = - (5764607523034240 / 2 ^ 58)"
    by (simp only: round_double_minus)
  then show ?thesis by (simp only: minus_diff_eq)
qed

lemma round_double_sum:
  "round_double (- (5764607523034240 / 2 ^ 58) + 7205759403792794 / 2 ^ 56)
     = 5764607523034234 / 2 ^ 56"
  by (subst round_double_eval [where j = 56]) (simp_all add: round_half_even_def Let_def)


lemma sample_policy_fields:
  "num_price_buckets sample_policy = 5" "num_time_buckets sample_policy = 10"
  "alpha sample_policy = 1 / 2" "gamma sample_policy = 1 / 2"
  "epsilon sample_policy = 1 / 10"
  "q_table sample_policy = sample_table"
  "last_state sample_policy = None" "last_action sample_policy = None"
  by (simp_all add: sample_policy_def new_policy_def)

lemma pending_policy_fields:
  "num_price_buckets pending_policy = 5" "num_time_buckets pending_policy = 10"
  "alpha pending_policy = 1 / 2" "gamma pending_policy = 1 / 2"
  "q_table pending_policy = sample_table"
  "last_state pending_policy = Some (4, 2)" "last_action pending_policy = Some 1"
  by (simp_all add: pending_policy_def sample_policy_fields)

text \<open>
  Equal prices fall into the last bucket; reference price 1.48 against pool price 1.5
  falls into bucket 3, since the rounded sum 0.07999999999999999 is below four times
  the double of 0.02.
\<close>

lemma discretize_state_eval:
  assumes "round_double (reference_price obs - amm_price obs) = d"
    and "round_double (real (num_price_buckets pol) * round_double 0.02) = sh"
    and "round_double (d + sh) = sm"
    and "\<lfloor>sm / round_double 0.02\<rfloor> = b"
    and "0 < num_time_buckets pol"
  shows "discretize_state pol obs =
           Inr (nat (max 0 (min (int (num_price_buckets pol) - 1) b)),
                step_key obs mod num_time_buckets pol)"
  using assms by (simp add: discretize_state_def Let_def)

lemma discretize_obs_equal: "discretize_state sample_policy obs_equal = Inr (4, 2)"
proof -
  have d: "round_double (reference_price obs_equal - amm_price obs_equal) = 0"
    by (simp add: obs_equal_def round_double_def)
  have sh: "round_double (real (num_price_buckets sample_policy) * round_double 0.02)
      = 7205759403792794 / 2 ^ 56"
    by (simp only: sample_policy_fields of_nat_numeral round_double_002 round_double_shift)
  have sm: "round_double (0 + 7205759403792794 / 2 ^ 56) = 7205759403792794 / 2 ^ 56"
    by (simp only: add_0 round_double_shift_again)
  have b: "\<lfloor>(7205759403792794 / 2 ^ 56) / round_double 0.02\<rfloor> = 5"
    unfolding round_double_002 by simp
  have t: "0 < num_time_buckets sample_policy" by (simp add: sample_policy_fields)
  from discretize_state_eval [OF d sh sm b t] show ?thesis
    by (simp add: sample_policy_fields obs_equal_def)
qed

lemma discretize_obs_below: "discretize_state pending_policy obs_below = Inr (3, 3)"
proof -
  have d: "round_double (reference_price obs_below - amm_price obs_below)
      = - (5764607523034240 / 2 ^ 58)"
    by (simp only: obs_below_def env_state.simps round_double_148 round_double_diff)
  have sh: "round_double (real (num_price_buckets pending_policy) * round_double 0.02)
      = 7205759403792794 / 2 ^ 56"
    by (simp only: pending_policy_fields of_nat_numeral round_double_002 round_double_shift)
  have b: "\<lfloor>(5764607523034234 / 2 ^ 56) / round_double 0.02\<rfloor> = 3"
    unfolding round_double_002 by simp
  have t: "0 < num_time_buckets pending_policy" by (simp add: pending_policy_fields)
  from discretize_state_eval [OF d sh round_double_sum b t] show ?thesis
    by (simp add: pending_policy_fields obs_below_def)
qed

lemma select_obs_equal:
  "select_action sample_policy obs_equal (1 / 2) 0 =
     Inr (\<lparr>act_type = Some ''add_liquidity'', act_direction = None, act_amount = None,
           act_amount_tokenA = Some 10, act_amount_tokenB = Some 10\<rparr>, pending_policy)"
  by (simp add: select_action_def discretize_obs_equal sample_policy_fields in_table_def
      argmax3_def sample_table_def pending_policy_def Let_def)

text \<open>
  C8: \<open>update_q\<close> with no pending selection (\<open>last_state = None\<close>) returns the policy
  unchanged. With a pending selection \<open>((i, j), a)\<close> inside the table it returns a policy
  in which the entry \<open>(i, j, a)\<close> is \<open>Q + alpha * (target - Q)\<close>, where \<open>target\<close> is
  the reward if the terminal flag is set and the reward plus \<open>gamma\<close> times the greatest
  of the three values at the discretized next observation otherwise; every other entry
  and every other field is unchanged and \<open>last_state\<close>, \<open>last_action\<close> are \<open>None\<close>.
  After any update that returned, a further update returns the same policy.
\<close>

theorem update_q_spec:
  "(last_state pol = None \<longrightarrow> update_q pol reward obs terminal = Inr pol)
 \<and> (last_state pol = Some (i, j) \<and> last_action pol = Some a
      \<and> i < num_price_buckets pol \<and> j < num_time_buckets pol \<and> a < 3 \<longrightarrow>
    (\<exists>pol' s_next target.
        update_q pol reward obs terminal = Inr pol'
      \<and> discretize_state pol obs = Inr s_next
      \<and> target = (if terminal then reward
                  else reward + gamma pol *
                         Max {q_table pol (fst s_next) (snd s_next) 0,
                              q_table pol (fst s_next) (snd s_next) 1,
                              q_table pol (fst s_next) (snd s_next) 2})
      \<and> q_table pol' i j a = q_table pol i j a + alpha pol * (target - q_table pol i j a)
      \<and> (\<forall>i' j' k. (i', j', k) \<noteq> (i, j, a) \<longrightarrow> q_table pol' i' j' k = q_table pol i' j' k)
      \<and> pol' = pol\<lparr>q_table := q_table pol', last_state := None, last_action := None\<rparr>
      \<and> update_q pol' reward2 obs2 terminal2 = Inr pol'))
 \<and> (update_q pol reward obs terminal = Inr pol1 \<longrightarrow>
      update_q pol1 reward2 obs2 terminal2 = Inr pol1)"
proof (intro conjI impI)
  assume "last_state pol = None"
  then show "update_q pol reward obs terminal = Inr pol" by (rule update_q_no_pending)
next
  assume "update_q pol reward obs terminal = Inr pol1"
  then have "last_state pol1 = None" by (rule update_q_clears)
  then show "update_q pol1 reward2 obs2 terminal2 = Inr pol1" by (rule update_q_no_pending)
next
  assume pend: "last_state pol = Some (i, j) \<and> last_action pol = Some a
      \<and> i < num_price_buckets pol \<and> j < num_time_buckets pol \<and> a < 3"
  then have inside: "in_table pol (i, j)" by (simp add: in_table_def)
  from discretize_state_in_table [OF inside] obtain s_next where
    d: "discretize_state pol obs = Inr s_next" and n: "in_table pol s_next" by blast
  define target where "target = (if terminal then reward
                  else reward + gamma pol *
                         Max {q_table pol (fst s_next) (snd s_next) 0,
                              q_table pol (fst s_next) (snd s_next) 1,
                              q_table pol (fst s_next) (snd s_next) 2})"
  define pol' where "pol' = pol\<lparr>q_table := (\<lambda>i' j' k.
                                   if i' = i \<and> j' = j \<and> k = a
                                   then q_table pol i' j' k + alpha pol * (target - q_table pol i' j' k)
                                   else q_table pol i' j' k),
                                 last_state := None, last_action := None\<rparr>"
  have u: "update_q pol reward obs terminal = Inr pol'"
    unfolding pol'_def target_def max_of_three using pend inside d n
    by (simp add: update_q_def del: One_nat_def)
  have "last_state pol' = None" by (simp add: pol'_def)
  then have again: "update_q pol' reward2 obs2 terminal2 = Inr pol'" by (rule update_q_no_pending)
  have entry: "q_table pol' i j a = q_table pol i j a + alpha pol * (target - q_table pol i j a)"
    by (simp add: pol'_def)
  have frame: "\<forall>i' j' k. (i', j', k) \<noteq> (i, j, a) \<longrightarrow> q_table pol' i' j' k = q_table pol i' j' k"
    by (simp add: pol'_def)
  have rest: "pol' = pol\<lparr>q_table := q_table pol', last_state := None, last_action := None\<rparr>"
    by (simp add: pol'_def)
  from u d target_def entry frame rest again
  show "\<exists>pol' s_next target.
        update_q pol reward obs terminal = Inr pol'
      \<and> discretize_state pol obs = Inr s_next
      \<and> target = (if terminal then reward
                  else reward + gamma pol *
                         Max {q_table pol (fst s_next) (snd s_next) 0,
                              q_table pol (fst s_next) (snd s_next) 1,
                              q_table pol (fst s_next) (snd s_next) 2})
      \<and> q_table pol' i j a = q_table pol i j a + alpha pol * (target - q_table pol i j a)
      \<and> (\<forall>i' j' k. (i', j', k) \<noteq> (i, j, a) \<longrightarrow> q_table pol' i' j' k = q_table pol i' j' k)
      \<and> pol' = pol\<lparr>q_table := q_table pol', last_state := None, last_action := None\<rparr>
      \<and> update_q pol' reward2 obs2 terminal2 = Inr pol'"
    by blast
qed

text \<open>
  A selection, an update and a second update: the selection ((4, 2), 1) has value 1,
  the next observation falls into row (3, 3) with values 1, 3, 2, so the target is
  \<open>2 + 1/2 * 3\<close> and the entry becomes \<open>1 + 1/2 * (3.5 - 1) = 2.25\<close>.
\<close>

theorem update_q_spec_witness:
  "update_q sample_policy 2 obs_below False = Inr sample_policy
 \<and> (\<exists>a p1 p2.
        select_action sample_policy obs_equal (1 / 2) 0 = Inr (a, p1)
      \<and> last_state p1 = Some (4, 2) \<and> last_action p1 = Some 1
      \<and> q_table p1 4 2 1 = 1
      \<and> update_q p1 2 obs_below False = Inr p2
      \<and> discretize_state p1 obs_below = Inr (3, 3)
      \<and> Max {q_table p1 3 3 0, q_table p1 3 3 1, q_table p1 3 3 2} = 3
      \<and> q_table p2 4 2 1 = 1 + 1 / 2 * ((2 + 1 / 2 * 3) - 1)
      \<and> q_table p2 4 2 0 = q_table p1 4 2 0 \<and> q_table p2 3 3 1 = 3
      \<and> last_state p2 = None \<and> last_action p2 = None
      \<and> update_q p2 7 obs_equal True = Inr p2)"
proof -
  note f = pending_policy_fields
  have none: "update_q sample_policy 2 obs_below False = Inr sample_policy"
    using update_q_spec [where pol = sample_policy and reward = 2 and obs = obs_below
        and terminal = False]
    by (simp add: sample_policy_fields)
  have pend: "last_state pending_policy = Some (4, 2) \<and> last_action pending_policy = Some 1
      \<and> 4 < num_price_buckets pending_policy \<and> 2 < num_time_buckets pending_policy
      \<and> (1::nat) < 3"
    by (simp add: f)
  note spec = update_q_spec [where pol = pending_policy and reward = 2 and obs = obs_below
        and terminal = False and i = 4 and j = 2 and a = 1 and ?reward2.0 = 7
        and ?obs2.0 = obs_equal and ?terminal2.0 = True and ?pol1.0 = pending_policy]
  from spec [THEN conjunct2, THEN conjunct1, THEN mp, OF pend]
  obtain p2 s_next target where
    u: "update_q pending_policy 2 obs_below False = Inr p2"
    and d: "discretize_state pending_policy obs_below = Inr s_next"
    and t: "target = (if False then 2
                  else 2 + gamma pending_policy *
                         Max {q_table pending_policy (fst s_next) (snd s_next) 0,
                              q_table pending_policy (fst s_next) (snd s_next) 1,
                              q_table pending_policy (fst s_next) (snd s_next) 2})"
    and entry: "q_table p2 4 2 1 =
        q_table pending_policy 4 2 1 + alpha pending_policy * (target - q_table pending_policy 4 2 1)"
    and frame: "\<forall>i' j' k. (i', j', k) \<noteq> (4, 2, 1) \<longrightarrow> q_table p2 i' j' k = q_table pending_policy i' j' k"
    and rest: "p2 = pending_policy\<lparr>q_table := q_table p2, last_state := None, last_action := None\<rparr>"
    and again: "update_q p2 7 obs_equal True = Inr p2"
    by (elim exE conjE) (rule that; assumption)
  from d have s: "s_next = (3, 3)" by (simp add: discretize_obs_below)
  have row: "Max {q_table pending_policy 3 3 0, q_table pending_policy 3 3 1,
                  q_table pending_policy 3 3 2} = 3"
    by (simp add: f sample_table_def)
  from t have target: "target = 2 + 1 / 2 * 3"
    unfolding s fst_conv snd_conv row by (simp add: f)
  have old: "q_table pending_policy 4 2 1 = 1" by (simp add: f sample_table_def)
  from entry have e: "q_table p2 4 2 1 = 1 + 1 / 2 * ((2 + 1 / 2 * 3) - 1)"
    unfolding target old by (simp add: f)
  from frame have o: "q_table p2 4 2 0 = q_table pending_policy 4 2 0" "q_table p2 3 3 1 = 3"
    by (simp_all add: f sample_table_def)
  from rest have cleared: "last_state p2 = None" "last_action p2 = None"
    by (metis SimpleQPolicy.select_convs(7) SimpleQPolicy.surjective SimpleQPolicy.update_convs(7,8),
        metis SimpleQPolicy.select_convs(8) SimpleQPolicy.surjective SimpleQPolicy.update_convs(8))
  from select_obs_equal f(6,7) old u discretize_obs_below row e o cleared again
  have "\<exists>a p1 p2.
        select_action sample_policy obs_equal (1 / 2) 0 = Inr (a, p1)
      \<and> last_state p1 = Some (4, 2) \<and> last_action p1 = Some 1
      \<and> q_table p1 4 2 1 = 1
      \<and> update_q p1 2 obs_below False = Inr p2
      \<and> discretize_state p1 obs_below = Inr (3, 3)
      \<and> Max {q_table p1 3 3 0, q_table p1 3 3 1, q_table p1 3 3 2} = 3
      \<and> q_table p2 4 2 1 = 1 + 1 / 2 * ((2 + 1 / 2 * 3) - 1)
      \<and> q_table p2 4 2 0 = q_table p1 4 2 0 \<and> q_table p2 3 3 1 = 3
      \<and> last_state p2 = None \<and> last_action p2 = None
      \<and> update_q p2 7 obs_equal True = Inr p2"
    by (intro exI conjI)
  with none show ?thesis by (rule conjI)
qed

end
